theory Spec2Isabelle
  imports Main
begin

section \<open>Values, strings and messages\<close>

text \<open>
  JavaScript values that travel through the modelled code (action arguments and results,
  state trees, inspector edits).  Strings are byte lists; the emblems the source writes as
  emoji are spelled out as their UTF-8 bytes.
\<close>

datatype val = Undefined | Num int | Str string | Obj "(string \<times> val) list"

definition pineapple :: string where
  "pineapple = [CHR 0xF0, CHR 0x9F, CHR 0x8D, CHR 0x8D]"

definition departure :: string where
  "departure = [CHR 0xF0, CHR 0x9F, CHR 0x9B, CHR 0xAB]"

definition arrival :: string where
  "arrival = [CHR 0xF0, CHR 0x9F, CHR 0x9B, CHR 0xAC]"

definition collision :: string where
  "collision = [CHR 0xF0, CHR 0x9F, CHR 0x92, CHR 0xA5]"

definition arrow_down :: string where
  "arrow_down = [CHR 0xE2, CHR 0xA4, CHR 0xB5, CHR 0xEF, CHR 0xB8, CHR 0x8F]"

definition puzzle :: string where
  "puzzle = [CHR 0xF0, CHR 0x9F, CHR 0xA7, CHR 0xA9]"

definition dquote :: string where
  "dquote = [CHR 0x22]"

definition newline :: string where
  "newline = [CHR 0x0A]"

text \<open>\<open>Array.prototype.toString\<close> on a path: the segments joined by commas.\<close>

fun join_comma :: "string list \<Rightarrow> string" where
  "join_comma [] = []"
| "join_comma [s] = s"
| "join_comma (s # t # ts) = s @ '','' @ join_comma (t # ts)"

text \<open>The optional second parameter of \<open>toastMessage\<close>: \<open>'normal' | 'error' | 'warning'\<close>,
  or \<open>None\<close> when the caller passes nothing.\<close>

datatype severity = Normal | Error | Warning

datatype channel = DevtoolsToast | ConsoleError | ConsoleWarn | ConsoleLog

record message =
  msg_channel :: channel
  msg_text :: string
  msg_type :: "severity option"

section \<open>The devtools bridge: data model\<close>

type_synonym ref = nat
type_synonym app = nat
type_synonym pinia = nat
type_synonym vm = nat
type_synonym fn = nat

text \<open>
  A store object as the two modules consume it: \<open>$id\<close>, \<open>$state\<close> (its top-level keys are
  the state properties readable and writable on the store), \<open>_getters\<close>, and the action
  functions found under their names (a function is named by a number; what it does is
  given by the host, see \<open>call_wrapped\<close>).  The two counters are the host's side of
  \<open>$onAction\<close> and \<open>$subscribe\<close>: how many callbacks the bridge has installed on the object.
\<close>

record store =
  store_id :: string
  store_state :: "(string \<times> val) list"
  store_getters :: "string list option"
  store_actions :: "(string \<times> fn) list"
  onAction_callbacks :: nat
  subscribe_callbacks :: nat

datatype MutationType = direct | patchObject | patchFunction

record debugger_event =
  event_type :: string
  event_key :: string

datatype events = NoEvents | OneEvent debugger_event | EventArray "debugger_event list"

text \<open>Calls into \<open>./formatting\<close>, which is not part of the sources at hand, stay symbolic.\<close>

datatype display = FormatDisplay string

datatype title_text = Literal string | FormatMutationType MutationType

datatype event_data =
    ActionStartData display "val list"
  | ActionEndData display "val list" val
  | ActionErrorData display "val list" val
  | MutationData events bool

record timeline_event =
  title :: title_text
  subtitle :: "string option"
  groupId :: "nat option"
  logType :: "string option"
  data :: event_data

datatype hook = InspectComponent | GetInspectorTree | GetInspectorState
  | EditInspectorState | EditComponentState

datatype api_call =
    AddTimelineLayer string
  | AddInspector string
  | On hook app
  | SendInspectorTree string
  | SendInspectorState string
  | NotifyComponentUpdate
  | AddTimelineEvent string timeline_event

text \<open>
  The module-level variables of the bridge (\<open>registeredStores\<close>, \<open>isAlreadyInstalled\<close>,
  \<open>isTimelineActive\<close>, \<open>componentStateTypes\<close>, \<open>runningActionId\<close>, \<open>activeAction\<close>) and of the
  map helpers (\<open>mapStoreSuffix\<close>), together with what the host holds: the store objects,
  the component instances (with their \<open>_pStores\<close> cache, absent until first use, and
  \<open>$pinia\<close>), the trace of devtools API calls, the trace of calls to an edit payload's
  \<open>set\<close>, the messages shown, whether a toast function exists, and the active pinia.
  \<open>registeredStores\<close> is a JavaScript \<open>Map\<close>, and \<open>_pStores\<close> an object with string keys:
  association lists in insertion order.  \<open>inherited_keys\<close> are the names under which a
  plain object (\<open>{}\<close>) finds a truthy value on \<open>Object.prototype\<close>.
\<close>

record component_instance =
  pStores :: "(string \<times> ref) list option"
  inst_pinia :: pinia

record world =
  registeredStores :: "(string \<times> ref) list"
  isAlreadyInstalled :: bool
  isTimelineActive :: bool
  componentStateTypes :: "string list"
  runningActionId :: nat
  activeAction :: "nat option"
  mapStoreSuffix :: string
  inherited_keys :: "string list"
  objects :: "ref \<Rightarrow> store"
  instances :: "vm \<Rightarrow> component_instance"
  api_calls :: "api_call list"
  set_calls :: "(ref \<times> string list \<times> val) list"
  messages :: "message list"
  toast_host :: bool
  activePinia :: "pinia option"

text \<open>The members of \<open>Object.prototype\<close> as ECMAScript defines them: what every plain
  object inherits in a page that has added nothing to it.\<close>

definition Object_prototype_keys :: "string list" where
  "Object_prototype_keys =
     [''constructor'', ''__defineGetter__'', ''__defineSetter__'', ''hasOwnProperty'',
      ''__lookupGetter__'', ''__lookupSetter__'', ''isPrototypeOf'', ''propertyIsEnumerable'',
      ''toString'', ''valueOf'', ''__proto__'', ''toLocaleString'']"

definition MUTATIONS_LAYER_ID :: string where
  "MUTATIONS_LAYER_ID = ''pinia:mutations''"

definition INSPECTOR_ID :: string where
  "INSPECTOR_ID = ''pinia''"

text \<open>\<open>Map.prototype.has\<close>, \<open>get\<close> and \<open>set\<close> on the association list.\<close>

definition map_has :: "(string \<times> 'a) list \<Rightarrow> string \<Rightarrow> bool" where
  "map_has m k = (k \<in> set (map fst m))"

definition map_get :: "(string \<times> 'a) list \<Rightarrow> string \<Rightarrow> 'a option" where
  "map_get m k = map_of m k"

fun map_set :: "(string \<times> 'a) list \<Rightarrow> string \<Rightarrow> 'a \<Rightarrow> (string \<times> 'a) list" where
  "map_set [] k v = [(k, v)]"
| "map_set ((k', v') # m) k v = (if k' = k then (k, v) # m else (k', v') # map_set m k v)"

definition call_api :: "api_call \<Rightarrow> world \<Rightarrow> world" where
  "call_api c w = w\<lparr>api_calls := api_calls w @ [c]\<rparr>"

text \<open>\<open>toastMessage(message, type?)\<close>.\<close>

definition toastMessage :: "string \<Rightarrow> severity option \<Rightarrow> world \<Rightarrow> world" where
  "toastMessage m ty w =
     (let piniaMessage = pineapple @ '' '' @ m;
          ch = (if toast_host w then DevtoolsToast
                else if ty = Some Error then ConsoleError
                else if ty = Some Warning then ConsoleWarn
                else ConsoleLog)
      in w\<lparr>messages := messages w @
             [\<lparr>msg_channel = ch, msg_text = piniaMessage, msg_type = ty\<rparr>]\<rparr>)"

section \<open>The action and mutation callbacks\<close>

text \<open>
  The callback handed to \<open>store.$onAction\<close>, in its three parts: the body run before
  the action (it draws the group id and emits the start event), and the two closures
  it registers with \<open>after\<close> and \<open>onError\<close>.
\<close>

definition onAction_callback :: "string \<Rightarrow> val list \<Rightarrow> world \<Rightarrow> nat \<times> world" where
  "onAction_callback name args w =
     (let gid = runningActionId w;
          w1 = w\<lparr>runningActionId := runningActionId w + 1\<rparr>
      in (gid, call_api (AddTimelineEvent MUTATIONS_LAYER_ID
            \<lparr>title = Literal (departure @ '' '' @ name), subtitle = Some ''start'',
             groupId = Some gid, logType = None,
             data = ActionStartData (FormatDisplay name) args\<rparr>) w1))"

definition after_callback :: "string \<Rightarrow> val list \<Rightarrow> nat \<Rightarrow> val \<Rightarrow> world \<Rightarrow> world" where
  "after_callback name args gid result w =
     call_api (AddTimelineEvent MUTATIONS_LAYER_ID
       \<lparr>title = Literal (arrival @ '' '' @ name), subtitle = Some ''end'',
        groupId = Some gid, logType = None,
        data = ActionEndData (FormatDisplay name) args result\<rparr>) w"

definition onError_callback :: "string \<Rightarrow> val list \<Rightarrow> nat \<Rightarrow> val \<Rightarrow> world \<Rightarrow> world" where
  "onError_callback name args gid err w =
     call_api (AddTimelineEvent MUTATIONS_LAYER_ID
       \<lparr>title = Literal (collision @ '' '' @ name), subtitle = Some ''end'',
        groupId = Some gid, logType = Some ''error'',
        data = ActionErrorData (FormatDisplay name) args err\<rparr>) w"

text \<open>
  The callback handed to \<open>store.$subscribe\<close>.  \<open>events\<close> is truthy unless it is
  \<open>undefined\<close> (an empty array is truthy as well).
\<close>

definition events_truthy :: "events \<Rightarrow> bool" where
  "events_truthy ev = (ev \<noteq> NoEvents)"

definition mutation_subtitle :: "MutationType \<Rightarrow> events \<Rightarrow> string option" where
  "mutation_subtitle ty ev =
     (if ty = patchFunction then Some arrow_down
      else if ty = patchObject then Some puzzle
      else (case ev of OneEvent e \<Rightarrow> Some (event_type e) | _ \<Rightarrow> None))"

definition subscribe_callback :: "events \<Rightarrow> MutationType \<Rightarrow> world \<Rightarrow> world" where
  "subscribe_callback ev ty w =
     (if \<not> isTimelineActive w then w
      else
        let w1 = call_api NotifyComponentUpdate w;
            w2 = call_api (SendInspectorState INSPECTOR_ID) w1;
            gid = activeAction w2;
            w3 = w2\<lparr>activeAction := None\<rparr>;
            eventData = \<lparr>title = FormatMutationType ty,
                         subtitle = mutation_subtitle ty ev,
                         groupId = gid, logType = None,
                         data = MutationData ev (events_truthy ev)\<rparr>
        in call_api (AddTimelineEvent MUTATIONS_LAYER_ID eventData) w3)"

section \<open>Registration\<close>

text \<open>
  \<open>addDevtools(app, store)\<close>.  The callback given to \<open>setupDevtoolsPlugin\<close> is run at
  once, one time per call.  \<open>hasSubscribed\<close> is a local that starts as \<open>true\<close> and is
  assigned \<open>true\<close> again when the id is new, exactly as the source has it.
\<close>

definition install_handlers :: "app \<Rightarrow> world \<Rightarrow> world" where
  "install_handlers a w =
     (let w1 = call_api (AddTimelineLayer MUTATIONS_LAYER_ID) w;
          w2 = call_api (AddInspector INSPECTOR_ID) w1;
          w3 = call_api (On InspectComponent a) w2;
          w4 = call_api (On GetInspectorTree a) w3;
          w5 = call_api (On GetInspectorState a) w4;
          w6 = call_api (On EditInspectorState a) w5;
          w7 = call_api (On EditComponentState a) w6
      in w7\<lparr>isAlreadyInstalled := True\<rparr>)"

definition subscribe_store :: "ref \<Rightarrow> world \<Rightarrow> world" where
  "subscribe_store r w =
     (let s = objects w r;
          w1 = w\<lparr>objects := (objects w)(r := s\<lparr>onAction_callbacks := onAction_callbacks s + 1\<rparr>)\<rparr>;
          s1 = objects w1 r;
          w2 = w1\<lparr>objects := (objects w1)(r := s1\<lparr>subscribe_callbacks := subscribe_callbacks s1 + 1\<rparr>)\<rparr>;
          w3 = call_api NotifyComponentUpdate w2
      in toastMessage (dquote @ store_id (objects w3 r) @ dquote @ '' store installed'') None w3)"

definition addDevtools :: "app \<Rightarrow> ref \<Rightarrow> world \<Rightarrow> world" where
  "addDevtools a r w =
     (let hasSubscribed0 = True;
          sid = store_id (objects w r);
          fresh = \<not> map_has (registeredStores w) sid;
          w1 = (if fresh
                then w\<lparr>registeredStores := map_set (registeredStores w) sid r,
                       componentStateTypes := componentStateTypes w @ [pineapple @ '' '' @ sid]\<rparr>
                else w);
          hasSubscribed = (if fresh then True else hasSubscribed0);
          w2 = (if \<not> isAlreadyInstalled w1 then install_handlers a w1
                else call_api (SendInspectorState INSPECTOR_ID)
                       (call_api (SendInspectorTree INSPECTOR_ID) w1))
      in if hasSubscribed then w2 else subscribe_store r w2)"

text \<open>The state of the module when it has just been loaded.\<close>

definition initial_world ::
  "(ref \<Rightarrow> store) \<Rightarrow> (vm \<Rightarrow> component_instance) \<Rightarrow> bool \<Rightarrow> world" where
  "initial_world objs insts toast =
     \<lparr>registeredStores = [], isAlreadyInstalled = False, isTimelineActive = True,
      componentStateTypes = [], runningActionId = 0, activeAction = None,
      mapStoreSuffix = ''Store'', inherited_keys = Object_prototype_keys, objects = objs,
      instances = insts, api_calls = [],
      set_calls = [], messages = [], toast_host = toast, activePinia = None\<rparr>"

section \<open>The store as the host provides it\<close>

text \<open>
  Modelled from the spec: the store's action lifecycle (\<open>$onAction\<close>), which lives in the
  store implementation and not in the sources at hand.  Invoking an action runs every
  installed action callback before the body; the callback registers its \<open>after\<close> and
  \<open>onError\<close> closures, and exactly one kind of them fires, by the outcome of the action.
\<close>

datatype outcome = Returns val | Throws val

fun run_onAction :: "nat \<Rightarrow> string \<Rightarrow> val list \<Rightarrow> world \<Rightarrow> nat list \<times> world" where
  "run_onAction 0 name args w = ([], w)"
| "run_onAction (Suc n) name args w =
     (let (g, w1) = onAction_callback name args w;
          (gs, w2) = run_onAction n name args w1
      in (g # gs, w2))"

definition invoke_action :: "ref \<Rightarrow> string \<Rightarrow> val list \<Rightarrow> outcome \<Rightarrow> world \<Rightarrow> world" where
  "invoke_action r name args out w =
     (let (gids, w1) = run_onAction (onAction_callbacks (objects w r)) name args w
      in case out of
           Returns v \<Rightarrow> fold (\<lambda>g. after_callback name args g v) gids w1
         | Throws e \<Rightarrow> fold (\<lambda>g. onError_callback name args g e) gids w1)"

text \<open>
  Modelled from the spec: state-change notification (\<open>$subscribe\<close>).  A write to the
  store's state runs every installed mutation callback, once per mutation, while the
  write is under way (the pause flag of the bridge relies on exactly that).
\<close>

definition notify_subscribers :: "ref \<Rightarrow> (events \<times> MutationType) list \<Rightarrow> world \<Rightarrow> world" where
  "notify_subscribers r ms w =
     fold (\<lambda>(ev, ty) w'. (subscribe_callback ev ty ^^ subscribe_callbacks (objects w' r)) w') ms w"

text \<open>
  Modelled from the spec: reading and writing a state property on a store object
  (\<open>store[key]\<close> and \<open>store[key] = value\<close>).  A missing key reads as \<open>undefined\<close>; a write is
  a direct mutation, notified with one debugger event.
\<close>

definition store_read :: "ref \<Rightarrow> string \<Rightarrow> world \<Rightarrow> val" where
  "store_read r key w =
     (case map_get (store_state (objects w r)) key of Some v \<Rightarrow> v | None \<Rightarrow> Undefined)"

definition store_write :: "ref \<Rightarrow> string \<Rightarrow> val \<Rightarrow> world \<Rightarrow> world" where
  "store_write r key v w =
     (let s = objects w r;
          ev = \<lparr>event_type = (if map_has (store_state s) key then ''set'' else ''add''),
                event_key = key\<rparr>;
          w1 = w\<lparr>objects := (objects w)(r := s\<lparr>store_state := map_set (store_state s) key v\<rparr>)\<rparr>
      in notify_subscribers r [(OneEvent ev, direct)] w1)"

section \<open>The inspector handlers\<close>

text \<open>
  Modelled from the spec: \<open>formatStoreForInspectorTree\<close> and \<open>formatStoreForInspectorState\<close>
  of \<open>./formatting\<close>.  A tree node carries the store's id and a label derived from the
  store (how is not said: the derivation is a parameter); the state payload stays symbolic.
\<close>

record inspector_node =
  node_id :: string
  node_label :: string

definition formatStoreForInspectorTree :: "(store \<Rightarrow> string) \<Rightarrow> store \<Rightarrow> inspector_node" where
  "formatStoreForInspectorTree label s = \<lparr>node_id = store_id s, node_label = label s\<rparr>"

datatype inspector_state = FormatStoreForInspectorState store

text \<open>
  \<open>String.prototype.includes\<close>: does the argument occur at some position.  On well-formed
  strings an occurrence of bytes is an occurrence of characters.
  \<open>String.prototype.toLowerCase\<close> belongs to the JavaScript runtime and rests on the
  Unicode case tables: the handler takes it as the parameter \<open>toLowerCase\<close>, and nothing is
  assumed about it.
\<close>

fun startsWith :: "string \<Rightarrow> string \<Rightarrow> bool" where
  "startsWith s [] = True"
| "startsWith [] (c # t) = False"
| "startsWith (a # s) (c # t) = (a = c \<and> startsWith s t)"

fun includes_str :: "string \<Rightarrow> string \<Rightarrow> bool" where
  "includes_str [] t = (t = [])"
| "includes_str (a # s) t = (startsWith (a # s) t \<or> includes_str s t)"

record tree_payload =
  tree_app :: app
  tree_inspectorId :: string
  tree_filter :: "string option"
  rootNodes :: "inspector_node list"

text \<open>\<open>Array.from(registeredStores.values())\<close>.\<close>

definition registered_values :: "world \<Rightarrow> store list" where
  "registered_values w = map (\<lambda>(k, r). objects w r) (registeredStores w)"

text \<open>A filter is falsy when it is \<open>undefined\<close> or the empty string.\<close>

definition getInspectorTree_handler ::
  "(store \<Rightarrow> string) \<Rightarrow> (string \<Rightarrow> string) \<Rightarrow> app \<Rightarrow> tree_payload \<Rightarrow> world
     \<Rightarrow> tree_payload" where
  "getInspectorTree_handler label toLowerCase a p w =
     (if tree_app p = a \<and> tree_inspectorId p = INSPECTOR_ID then
        let stores = registered_values w
        in p\<lparr>rootNodes := map (formatStoreForInspectorTree label)
              (case tree_filter p of
                 None \<Rightarrow> stores
               | Some f \<Rightarrow>
                   if f = [] then stores
                   else filter (\<lambda>s. includes_str (toLowerCase (store_id s)) (toLowerCase f)) stores)\<rparr>
      else p)"

record state_payload =
  state_app :: app
  state_inspectorId :: string
  state_nodeId :: string
  payload_state :: "inspector_state option"

definition not_found_message :: "string \<Rightarrow> string" where
  "not_found_message nodeId = ''store '' @ dquote @ nodeId @ dquote @ '' not found''"

definition getInspectorState_handler ::
  "app \<Rightarrow> state_payload \<Rightarrow> world \<Rightarrow> state_payload \<times> world" where
  "getInspectorState_handler a p w =
     (if state_app p = a \<and> state_inspectorId p = INSPECTOR_ID then
        (case map_get (registeredStores w) (state_nodeId p) of
           None \<Rightarrow> (p, toastMessage (not_found_message (state_nodeId p)) (Some Error) w)
         | Some r \<Rightarrow> (p\<lparr>payload_state := Some (FormatStoreForInspectorState (objects w r))\<rparr>, w))
      else (p, w))"

text \<open>
  The edit payload.  Its \<open>set\<close> is the host's deep setter: given the object, the path and
  the value it yields the object as the call leaves it, the mutations the call raises
  on the object's subscribers, and the exception it ends with, if it throws.
\<close>

record edit_payload =
  edit_app :: app
  edit_inspectorId :: string
  edit_nodeId :: string
  edit_path :: "string list"
  edit_value :: val
  edit_set :: "store \<Rightarrow> string list \<Rightarrow> val
                 \<Rightarrow> store \<times> (events \<times> MutationType) list \<times> val option"

definition invalid_path_message :: "string \<Rightarrow> string list \<Rightarrow> string" where
  "invalid_path_message nodeId path =
     ''Invalid path for store '' @ dquote @ nodeId @ dquote @ '':'' @ newline @
     join_comma path @ newline @ ''Only state can be modified.''"

text \<open>
  How a handler ends: it returns (with the payload as it leaves it), or an exception
  passes through it.  The handler has no \<open>try\<close>: when \<open>payload.set\<close> throws, the statements
  after the call are not run.
\<close>

datatype 'a completion = Completed 'a | Thrown val

definition editInspectorState_handler ::
  "app \<Rightarrow> edit_payload \<Rightarrow> world \<Rightarrow> edit_payload completion \<times> world" where
  "editInspectorState_handler a p w =
     (if edit_app p = a \<and> edit_inspectorId p = INSPECTOR_ID then
        (case map_get (registeredStores w) (edit_nodeId p) of
           None \<Rightarrow> (Completed p, toastMessage (not_found_message (edit_nodeId p)) (Some Error) w)
         | Some r \<Rightarrow>
             let path = edit_path p
             in if (case path of [] \<Rightarrow> True | seg # _ \<Rightarrow> seg \<noteq> ''state'')
                then (Completed p, toastMessage (invalid_path_message (edit_nodeId p) path) None w)
                else
                  let path' = ''$state'' # tl path;
                      p' = p\<lparr>edit_path := path'\<rparr>;
                      w1 = w\<lparr>isTimelineActive := False\<rparr>;
                      w2 = w1\<lparr>set_calls := set_calls w1 @ [(r, path', edit_value p')]\<rparr>;
                      (s', ms, exn) = edit_set p' (objects w2 r) path' (edit_value p');
                      w3 = w2\<lparr>objects := (objects w2)(r := s')\<rparr>;
                      w4 = notify_subscribers r ms w3
                  in (case exn of
                        Some e \<Rightarrow> (Thrown e, w4)
                      | None \<Rightarrow> (Completed p', w4\<lparr>isTimelineActive := True\<rparr>)))
      else (Completed p, w))"

section \<open>The action tracking plugin\<close>

text \<open>
  The proxy \<open>new Proxy(store, {get, set})\<close> built by a wrapper: the store it stands for
  and the \<open>_actionId\<close> its traps have captured.  Each trap stores the id in the
  \<open>activeAction\<close> slot and then does what \<open>Reflect.get\<close> or \<open>Reflect.set\<close> does on the store.
\<close>

datatype this_arg = TrackedStore ref nat

definition proxy_get :: "this_arg \<Rightarrow> string \<Rightarrow> world \<Rightarrow> val \<times> world" where
  "proxy_get this key w =
     (case this of TrackedStore r actionId \<Rightarrow>
        let w1 = w\<lparr>activeAction := Some actionId\<rparr> in (store_read r key w1, w1))"

definition proxy_set :: "this_arg \<Rightarrow> string \<Rightarrow> val \<Rightarrow> world \<Rightarrow> bool \<times> world" where
  "proxy_set this key v w =
     (case this of TrackedStore r actionId \<Rightarrow>
        let w1 = w\<lparr>activeAction := Some actionId\<rparr> in (True, store_write r key v w1))"

text \<open>Modelled from the spec: \<open>setActivePinia\<close> of \<open>../rootStore\<close> re-activates the given pinia.\<close>

definition setActivePinia :: "pinia \<Rightarrow> world \<Rightarrow> world" where
  "setActivePinia pn w = w\<lparr>activePinia := Some pn\<rparr>"


datatype js_error = TypeError

text \<open>
  A wrapper function is the closure over \<open>pinia\<close>, \<open>store\<close>, the \<open>actions\<close> object and
  \<open>actionName\<close>.  Calling it needs the host's \<open>Function.prototype.apply\<close>: what the function
  named by a number yields for a \<open>this\<close> and an argument list, in a given world (a value,
  an exception, a promise: the result type is left open).  \<open>actions[actionName]\<close> is
  \<open>undefined\<close> when the store had no such property, and \<open>undefined.apply\<close> throws.
\<close>

datatype wrapped_action = WrappedAction pinia ref "(string \<times> fn option) list" string

definition call_wrapped ::
  "(fn \<Rightarrow> this_arg \<Rightarrow> val list \<Rightarrow> world \<Rightarrow> 'r) \<Rightarrow> wrapped_action \<Rightarrow> val list \<Rightarrow> world
     \<Rightarrow> js_error + 'r" where
  "call_wrapped apply wa arguments w =
     (case wa of WrappedAction pn r actions actionName \<Rightarrow>
        let w1 = setActivePinia pn w;
            actionId = runningActionId w1;
            trackedStore = TrackedStore r actionId
        in (case map_get actions actionName of
              Some (Some f) \<Rightarrow> Inr (apply f trackedStore arguments w1)
            | _ \<Rightarrow> Inl TypeError))"


section \<open>The map helpers\<close>

text \<open>
  A store definition \<open>useStore\<close>: its \<open>$id\<close> and what calling it with a pinia does.  The
  call belongs to the store implementation: it yields a store object and may create
  objects, and has no access to component instances.
\<close>

record store_definition =
  def_id :: string
  def_use :: "pinia \<Rightarrow> (ref \<Rightarrow> store) \<Rightarrow> ref \<times> (ref \<Rightarrow> store)"

text \<open>An argument of \<open>mapStores\<close>: a definition, or (the misuse the function guards
  against) an array of definitions.  The \<open>$id\<close> of an array is \<open>undefined\<close>.\<close>

datatype store_arg = Definition store_definition | ArrayOf "store_definition list"

fun arg_id :: "store_arg \<Rightarrow> string" where
  "arg_id (Definition d) = def_id d"
| "arg_id (ArrayOf ds) = ''undefined''"

text \<open>
  What \<open>cache[id]\<close> finds.  The cache is a plain object: a lookup finds the store the
  cache holds under the id, or else the member of \<open>Object.prototype\<close> of that name, or
  else nothing.
\<close>

datatype cache_value = Store ref | Member string

definition object_get :: "world \<Rightarrow> (string \<times> ref) list \<Rightarrow> string \<Rightarrow> cache_value option" where
  "object_get w obj key =
     (case map_get obj key of
        Some r \<Rightarrow> Some (Store r)
      | None \<Rightarrow> if key \<in> set (inherited_keys w) then Some (Member key) else None)"

definition getCachedStore ::
  "vm \<Rightarrow> store_arg \<Rightarrow> world \<Rightarrow> js_error + (cache_value \<times> world)" where
  "getCachedStore v useStore w =
     (let inst = instances w v;
          (cache, w1) = (case pStores inst of
                           Some c \<Rightarrow> (c, w)
                         | None \<Rightarrow> ([], w\<lparr>instances := (instances w)(v := inst\<lparr>pStores := Some []\<rparr>)\<rparr>));
          id = arg_id useStore
      in case object_get w1 cache id of
           Some found \<Rightarrow> Inr (found, w1)
         | None \<Rightarrow>
             (case useStore of
                ArrayOf ds \<Rightarrow> Inl TypeError
              | Definition d \<Rightarrow>
                  let (r, objs) = def_use d (inst_pinia (instances w1 v)) (objects w1);
                      w2 = w1\<lparr>objects := objs\<rparr>;
                      inst2 = instances w2 v
                  in Inr (Store r, w2\<lparr>instances :=
                            (instances w2)(v := inst2\<lparr>pStores := Some (map_set cache id r)\<rparr>)\<rparr>)))"


definition tab :: string where
  "tab = [CHR 0x09]"

definition mapStores_warning :: string where
  "mapStores_warning =
     ''['' @ pineapple @ '']: Directly pass all stores to '' @ dquote @ ''mapStores()'' @ dquote @
     '' without putting them in an array:'' @ newline @ ''Replace'' @ newline @ tab @
     ''mapStores([useAuthStore, useCartStore])'' @ newline @ ''with'' @ newline @ tab @
     ''mapStores(useAuthStore, useCartStore)'' @ newline @
     ''This will fail in production if not fixed.''"

text \<open>An accessor of \<open>mapStores\<close> is the closure over \<open>useStore\<close>; \<open>this\<close> comes with the call.\<close>

datatype store_accessor = StoreAccessor store_arg


fun is_array :: "store_arg list \<Rightarrow> store_definition list option" where
  "is_array (ArrayOf ds # rest) = Some ds"
| "is_array _ = None"

text \<open>
  The object a map helper returns, by its own properties: a map from key to accessor
  (the order in which JavaScript lists the keys is not part of it).  An assignment under
  the key \<open>__proto__\<close> sets the prototype of the object and creates no property.
\<close>

definition obj_assign :: "(string \<rightharpoonup> 'a) \<Rightarrow> string \<Rightarrow> 'a \<Rightarrow> (string \<rightharpoonup> 'a)" where
  "obj_assign obj key v = (if key = ''__proto__'' then obj else obj(key \<mapsto> v))"

definition mapStores ::
  "bool \<Rightarrow> store_arg list \<Rightarrow> world \<Rightarrow> (string \<rightharpoonup> store_accessor) \<times> world" where
  "mapStores dev stores w =
     (let (stores1, w1) =
            (case (if dev then is_array stores else None) of
               Some ds \<Rightarrow>
                 (map Definition ds,
                  w\<lparr>messages := messages w @
                      [\<lparr>msg_channel = ConsoleWarn, msg_text = mapStores_warning, msg_type = None\<rparr>]\<rparr>)
             | None \<Rightarrow> (stores, w))
      in (fold (\<lambda>useStore reduced.
                 obj_assign reduced (arg_id useStore @ mapStoreSuffix w1) (StoreAccessor useStore))
            stores1 Map.empty, w1))"

text \<open>
  \<open>mapWritableState\<close>.  \<open>keysOrMapper\<close> is an array of state keys or an object from output
  key to state key.  Each entry of the result is a get/set pair, the closure over
  \<open>useStore\<close> and the key (and, in the object case, \<open>keysOrMapper\<close>, which is indexed when
  the accessor runs).
\<close>

datatype keys_or_mapper = KeyArray "string list" | KeyMapper "(string \<times> string) list"

datatype writable =
    WritableKey store_definition string
  | WritableMapped store_definition "(string \<times> string) list" string

fun writable_key :: "writable \<Rightarrow> string" where
  "writable_key (WritableKey useStore key) = key"
| "writable_key (WritableMapped useStore keysOrMapper key) =
     (case map_get keysOrMapper key of Some k \<Rightarrow> k | None \<Rightarrow> ''undefined'')"

fun writable_store :: "writable \<Rightarrow> store_definition" where
  "writable_store (WritableKey useStore key) = useStore"
| "writable_store (WritableMapped useStore keysOrMapper key) = useStore"

text \<open>
  What a get or set yields: the value, when the property access is made on a store; or
  \<open>OnMember m\<close>, when the cache lookup has produced the member \<open>m\<close> of \<open>Object.prototype\<close>
  and the property is read from or written to that object, which is outside the model.
\<close>

datatype access = OnStore val | OnMember string

definition writable_get :: "writable \<Rightarrow> vm \<Rightarrow> world \<Rightarrow> js_error + (access \<times> world)" where
  "writable_get acc this w =
     (case getCachedStore this (Definition (writable_store acc)) w of
        Inl e \<Rightarrow> Inl e
      | Inr (Store r, w1) \<Rightarrow> Inr (OnStore (store_read r (writable_key acc) w1), w1)
      | Inr (Member m, w1) \<Rightarrow> Inr (OnMember m, w1))"

definition writable_set :: "writable \<Rightarrow> vm \<Rightarrow> val \<Rightarrow> world \<Rightarrow> js_error + (access \<times> world)" where
  "writable_set acc this v w =
     (case getCachedStore this (Definition (writable_store acc)) w of
        Inl e \<Rightarrow> Inl e
      | Inr (Store r, w1) \<Rightarrow> Inr (OnStore v, store_write r (writable_key acc) v w1)
      | Inr (Member m, w1) \<Rightarrow> Inr (OnMember m, w1))"

definition mapWritableState ::
  "store_definition \<Rightarrow> keys_or_mapper \<Rightarrow> (string \<rightharpoonup> writable)" where
  "mapWritableState useStore keysOrMapper =
     (case keysOrMapper of
        KeyArray ks \<Rightarrow>
          fold (\<lambda>key reduced. obj_assign reduced key (WritableKey useStore key)) ks Map.empty
      | KeyMapper m \<Rightarrow>
          fold (\<lambda>key reduced. obj_assign reduced key (WritableMapped useStore m key))
            (map fst m) Map.empty)"

section \<open>Observations and example data\<close>

fun is_start :: "api_call \<Rightarrow> bool" where
  "is_start (AddTimelineEvent l e) = (subtitle e = Some ''start'')"
| "is_start _ = False"

definition start_events :: "world \<Rightarrow> api_call list" where
  "start_events w = filter is_start (api_calls w)"

text \<open>A run of \<open>addDevtools\<close> calls, each with its application and store object.\<close>

definition register_all :: "(app \<times> ref) list \<Rightarrow> world \<Rightarrow> world" where
  "register_all calls w = fold (\<lambda>(a, r). addDevtools a r) calls w"

definition cart :: store where
  "cart = \<lparr>store_id = ''cart'', store_state = [(''items'', Num 0)],
           store_getters = None, store_actions = [(''add'', 0)],
           onAction_callbacks = 0, subscribe_callbacks = 0\<rparr>"

definition no_instances :: "vm \<Rightarrow> component_instance" where
  "no_instances = (\<lambda>_. \<lparr>pStores = None, inst_pinia = 0\<rparr>)"

text \<open>The module after one registration of \<open>cart\<close>, and the same with one mutation
  callback present on the store.\<close>

definition registered_world :: world where
  "registered_world = addDevtools 0 0 (initial_world (\<lambda>_. cart) no_instances False)"

definition subscribed_world :: world where
  "subscribed_world = registered_world\<lparr>objects := \<lambda>_. cart\<lparr>subscribe_callbacks := 1\<rparr>\<rparr>"

text \<open>A host setter for the examples: it writes a two-segment path into the state and
  raises one direct mutation.\<close>

definition example_set ::
  "store \<Rightarrow> string list \<Rightarrow> val \<Rightarrow> store \<times> (events \<times> MutationType) list \<times> val option" where
  "example_set s path v =
     (case path of
        [root, key] \<Rightarrow>
          (s\<lparr>store_state := map_set (store_state s) key v\<rparr>,
           [(OneEvent \<lparr>event_type = ''set'', event_key = key\<rparr>, direct)], None)
      | _ \<Rightarrow> (s, [], None))"





definition options_edit :: edit_payload where
  "options_edit = \<lparr>edit_app = 0, edit_inspectorId = ''pinia'', edit_nodeId = ''cart'',
     edit_path = [''options'', ''items''], edit_value = Num 5, edit_set = example_set\<rparr>"

definition foreign_state_request :: state_payload where
  "foreign_state_request = \<lparr>state_app = 0, state_inspectorId = ''router'',
     state_nodeId = ''missing'', payload_state = None\<rparr>"

definition missing_state_request :: state_payload where
  "missing_state_request = \<lparr>state_app = 0, state_inspectorId = ''pinia'',
     state_nodeId = ''missing'', payload_state = None\<rparr>"

definition foreign_tree_request :: tree_payload where
  "foreign_tree_request = \<lparr>tree_app = 0, tree_inspectorId = ''router'',
     tree_filter = Some ''car'', rootNodes = []\<rparr>"

definition car_tree_request :: tree_payload where
  "car_tree_request = \<lparr>tree_app = 0, tree_inspectorId = ''pinia'',
     tree_filter = Some ''CAR'', rootNodes = []\<rparr>"

text \<open>What the specification says about strings, in its own words: one text occurs in
  another.\<close>

definition contains_text :: "string \<Rightarrow> string \<Rightarrow> bool" where
  "contains_text s t = (\<exists>pre post. s = pre @ t @ post)"

text \<open>A lowercasing for the examples: what \<open>toLowerCase\<close> does to a string of ASCII
  characters.\<close>

definition ascii_lower :: "string \<Rightarrow> string" where
  "ascii_lower s =
     map (\<lambda>c. let n = (of_char c :: nat) in if 65 \<le> n \<and> n \<le> 90 then char_of (n + 32) else c) s"

text \<open>The mutation event the callback builds, given the group id it has read.\<close>

definition mutation_event :: "events \<Rightarrow> MutationType \<Rightarrow> nat option \<Rightarrow> api_call" where
  "mutation_event ev ty gid =
     AddTimelineEvent MUTATIONS_LAYER_ID
       \<lparr>title = FormatMutationType ty, subtitle = mutation_subtitle ty ev,
        groupId = gid, logType = None, data = MutationData ev (events_truthy ev)\<rparr>"

text \<open>The store a component instance holds in its cache under an id, if any.\<close>

definition cached :: "world \<Rightarrow> vm \<Rightarrow> string \<Rightarrow> ref option" where
  "cached w v sid = (case pStores (instances w v) of None \<Rightarrow> None | Some c \<Rightarrow> map_get c sid)"

text \<open>The output keys of \<open>mapWritableState\<close> and the state key each of them stands for.\<close>

text \<open>
  The per-instance store cache in the words of the specification: the memoized store of
  the definition on the instance, created and cached on first access by calling the
  definition with the instance's pinia.
\<close>

definition instance_cache :: "world \<Rightarrow> vm \<Rightarrow> (string \<times> ref) list" where
  "instance_cache w v = (case pStores (instances w v) of None \<Rightarrow> [] | Some c \<Rightarrow> c)"

definition instance_store :: "vm \<Rightarrow> store_definition \<Rightarrow> world \<Rightarrow> ref \<times> world" where
  "instance_store v d w =
     (case cached w v (def_id d) of
        Some r \<Rightarrow> (r, w)
      | None \<Rightarrow>
          let created = def_use d (inst_pinia (instances w v)) (objects w)
          in (fst created,
              w\<lparr>objects := snd created,
                instances := (instances w)
                  (v := (instances w v)\<lparr>pStores :=
                          Some (instance_cache w v @ [(def_id d, fst created)])\<rparr>)\<rparr>))"

definition output_keys :: "keys_or_mapper \<Rightarrow> string set" where
  "output_keys km = (case km of KeyArray ks \<Rightarrow> set ks | KeyMapper m \<Rightarrow> fst ` set m)"

definition state_key_for :: "keys_or_mapper \<Rightarrow> string \<Rightarrow> string" where
  "state_key_for km k =
     (case km of KeyArray ks \<Rightarrow> k
      | KeyMapper m \<Rightarrow> (case map_get m k of Some sk \<Rightarrow> sk | None \<Rightarrow> ''undefined''))"

text \<open>More example data: the freshly loaded module, the plugin context of \<open>cart\<close>, a host
  whose function \<open>0\<close> adds its argument to \<open>items\<close> through \<open>this\<close>, and two store
  definitions.\<close>

definition fresh_world :: world where
  "fresh_world = initial_world (\<lambda>_. cart) no_instances False"


definition example_apply :: "fn \<Rightarrow> this_arg \<Rightarrow> val list \<Rightarrow> world \<Rightarrow> val \<times> world" where
  "example_apply f this args w =
     (if f = 0 then
        let (old, w1) = proxy_get this ''items'' w;
            new = (case (old, args) of (Num a, [Num b]) \<Rightarrow> Num (a + b) | _ \<Rightarrow> Undefined);
            (ok, w2) = proxy_set this ''items'' new w1
        in (new, w2)
      else (Undefined, w))"

definition use_at :: "ref \<Rightarrow> pinia \<Rightarrow> (ref \<Rightarrow> store) \<Rightarrow> ref \<times> (ref \<Rightarrow> store)" where
  "use_at r pn objs = (r, objs)"

definition useFooStore :: store_definition where
  "useFooStore = \<lparr>def_id = ''foo'', def_use = use_at 1\<rparr>"



definition useToStringStore :: store_definition where
  "useToStringStore = \<lparr>def_id = ''toString'', def_use = use_at 1\<rparr>"

section \<open>Association lists as maps\<close>

lemma keys_map_set: "fst ` set (map_set m k v) = insert k (fst ` set m)"
proof (induction m)
  case Nil
  show ?case by simp
next
  case (Cons e m)
  obtain k' v' where e: "e = (k', v')" by (cases e)
  show ?case using Cons.IH by (cases "k' = k") (auto simp: e)
qed

lemma distinct_map_set: "distinct (map fst m) \<Longrightarrow> distinct (map fst (map_set m k v))"
proof (induction m)
  case Nil
  show ?case by simp
next
  case (Cons e m)
  obtain k' v' where e: "e = (k', v')" by (cases e)
  show ?case using Cons by (cases "k' = k") (simp_all add: e keys_map_set)
qed

lemma count_distinct_key:
  "distinct (map fst m) \<Longrightarrow> k \<in> fst ` set m \<Longrightarrow> length (filter (\<lambda>e. fst e = k) m) = 1"
proof (induction m)
  case Nil
  then show ?case by simp
next
  case (Cons e m)
  show ?case
  proof (cases "fst e = k")
    case True
    with Cons.prems have "k \<notin> fst ` set m" by simp
    then have "filter (\<lambda>e. fst e = k) m = []" by (auto simp: filter_empty_conv)
    with True show ?thesis by simp
  next
    case False
    with Cons show ?thesis by simp
  qed
qed

section \<open>Registration: what \<open>addDevtools\<close> changes\<close>

lemma objects_call_api [simp]: "objects (call_api c w) = objects w"
  by (simp add: call_api_def)

lemma objects_install_handlers [simp]: "objects (install_handlers a w) = objects w"
  by (simp add: install_handlers_def Let_def)

text \<open>No store object is touched by a registration: the subscribing branch is never taken,
  because \<open>hasSubscribed\<close> is \<open>true\<close> on both paths.\<close>

lemma objects_addDevtools [simp]: "objects (addDevtools a r w) = objects w"
  by (simp add: addDevtools_def Let_def)

lemma registeredStores_call_api [simp]: "registeredStores (call_api c w) = registeredStores w"
  by (simp add: call_api_def)

lemma registeredStores_install_handlers [simp]:
  "registeredStores (install_handlers a w) = registeredStores w"
  by (simp add: install_handlers_def Let_def)

lemma registeredStores_addDevtools:
  "registeredStores (addDevtools a r w) =
     (if map_has (registeredStores w) (store_id (objects w r)) then registeredStores w
      else map_set (registeredStores w) (store_id (objects w r)) r)"
  by (simp add: addDevtools_def Let_def)

lemma distinct_addDevtools:
  "distinct (map fst (registeredStores w)) \<Longrightarrow>
   distinct (map fst (registeredStores (addDevtools a r w)))"
  by (simp add: registeredStores_addDevtools distinct_map_set)

lemma keys_addDevtools:
  "fst ` set (registeredStores (addDevtools a r w)) =
     insert (store_id (objects w r)) (fst ` set (registeredStores w))"
  by (auto simp: registeredStores_addDevtools keys_map_set map_has_def)

lemma register_all_Cons:
  "register_all ((a, r) # calls) w = register_all calls (addDevtools a r w)"
  by (simp add: register_all_def)

lemma objects_register_all [simp]: "objects (register_all calls w) = objects w"
  by (induction calls arbitrary: w) (auto simp: register_all_def)

lemma distinct_register_all:
  "distinct (map fst (registeredStores w)) \<Longrightarrow>
   distinct (map fst (registeredStores (register_all calls w)))"
proof (induction calls arbitrary: w)
  case Nil
  then show ?case by (simp add: register_all_def)
next
  case (Cons c calls)
  obtain a r where c: "c = (a, r)" by (cases c)
  show ?case unfolding c register_all_Cons
    by (rule Cons.IH) (rule distinct_addDevtools [OF Cons.prems])
qed

lemma keys_register_all:
  "fst ` set (registeredStores (register_all calls w)) =
     fst ` set (registeredStores w) \<union> (\<lambda>(a, r). store_id (objects w r)) ` set calls"
proof (induction calls arbitrary: w)
  case Nil
  show ?case by (simp add: register_all_def)
next
  case (Cons c calls)
  obtain a r where c: "c = (a, r)" by (cases c)
  show ?case unfolding c register_all_Cons
    by (auto simp: Cons.IH keys_addDevtools)
qed

text \<open>
  The action callback does what the timeline needs once it is installed: with one
  callback on the store, an invocation that returns emits one start event and one end
  event under the same, fresh group id.
\<close>

lemma invoke_action_subscribed:
  "onAction_callbacks (objects w r) = 1 \<Longrightarrow>
   api_calls (invoke_action r name args (Returns v) w) = api_calls w @
     [AddTimelineEvent MUTATIONS_LAYER_ID
        \<lparr>title = Literal (departure @ '' '' @ name), subtitle = Some ''start'',
         groupId = Some (runningActionId w), logType = None,
         data = ActionStartData (FormatDisplay name) args\<rparr>,
      AddTimelineEvent MUTATIONS_LAYER_ID
        \<lparr>title = Literal (arrival @ '' '' @ name), subtitle = Some ''end'',
         groupId = Some (runningActionId w), logType = None,
         data = ActionEndData (FormatDisplay name) args v\<rparr>]
   \<and> runningActionId (invoke_action r name args (Returns v) w) = runningActionId w + 1"
  by (simp add: invoke_action_def onAction_callback_def after_callback_def call_api_def Let_def)

text \<open>
  C1 (every action invocation on a store with devtools installed emits one start event,
  later matched by one end event).  The code does not do this.  In a freshly loaded
  module, register the store \<open>cart\<close> with \<open>addDevtools\<close> and invoke its action \<open>add\<close>
  once: the timeline holds no start event, where the claim asks for one.  \<open>addDevtools\<close>
  returns at \<open>if (hasSubscribed) return\<close> before it reaches \<open>store.$onAction\<close>.
\<close>

theorem addDevtools_then_action_emits_no_start:
  "start_events (invoke_action 0 ''add'' [Num 1] (Returns Undefined)
     (addDevtools 0 0 (initial_world (\<lambda>_. cart) no_instances False))) = []"
  by (simp add: start_events_def invoke_action_def initial_world_def cart_def
      addDevtools_def Let_def map_has_def install_handlers_def call_api_def)

text \<open>
  C2 (registering a store id any number of times leaves exactly one registry entry for
  the id and installs the two subscriptions at most once).  After any run of
  \<open>addDevtools\<close> calls from the freshly loaded module, a store that was passed to one of
  them has exactly one registry entry under its id; its action and mutation callbacks
  have grown by at most one each; and one more registration of it changes no store
  object, so adds no subscription.
\<close>

theorem addDevtools_registers_once:
  "(a, r) \<in> set calls \<Longrightarrow>
   (let w = register_all calls (initial_world objs insts toast)
    in length (filter (\<lambda>e. fst e = store_id (objs r)) (registeredStores w)) = 1
       \<and> onAction_callbacks (objects w r) \<le> onAction_callbacks (objs r) + 1
       \<and> subscribe_callbacks (objects w r) \<le> subscribe_callbacks (objs r) + 1
       \<and> objects (addDevtools a r w) = objects w)"
proof -
  assume mem: "(a, r) \<in> set calls"
  let ?w0 = "initial_world objs insts toast"
  let ?w = "register_all calls ?w0"
  have obj0: "objects ?w0 = objs" by (simp add: initial_world_def)
  have d: "distinct (map fst (registeredStores ?w))"
    by (rule distinct_register_all) (simp add: initial_world_def)
  have "store_id (objs r) \<in> (\<lambda>(a, r). store_id (objects ?w0 r)) ` set calls"
    using mem obj0 by force
  then have k: "store_id (objs r) \<in> fst ` set (registeredStores ?w)"
    by (simp add: keys_register_all)
  have "length (filter (\<lambda>e. fst e = store_id (objs r)) (registeredStores ?w)) = 1"
    by (rule count_distinct_key [OF d k])
  then show ?thesis by (simp add: Let_def initial_world_def)
qed

theorem addDevtools_registers_once_witness:
  "length (filter (\<lambda>e. fst e = ''cart'')
     (registeredStores (register_all [(0, 0), (0, 0), (0, 0)]
        (initial_world (\<lambda>_. cart) no_instances False)))) = 1"
  using addDevtools_registers_once [of 0 0 "[(0, 0), (0, 0), (0, 0)]" "\<lambda>_. cart" no_instances False]
  by (simp add: Let_def cart_def)

section \<open>Editing state from the inspector\<close>

lemma subscribe_callback_paused:
  "\<not> isTimelineActive w \<Longrightarrow> subscribe_callback ev ty w = w"
  by (simp add: subscribe_callback_def)

lemma subscribe_callbacks_paused:
  "\<not> isTimelineActive w \<Longrightarrow> (subscribe_callback ev ty ^^ n) w = w"
  by (induction n) (simp_all add: subscribe_callback_paused)

lemma notify_subscribers_paused:
  "\<not> isTimelineActive w \<Longrightarrow> notify_subscribers r ms w = w"
  unfolding notify_subscribers_def
  by (induction ms) (auto simp: subscribe_callbacks_paused)

text \<open>The pause matters: with the timeline active and one mutation callback on the
  store, a notified mutation does reach the timeline.\<close>

lemma notify_subscribers_active:
  "isTimelineActive w \<Longrightarrow> subscribe_callbacks (objects w r) = 1 \<Longrightarrow>
   api_calls (notify_subscribers r [(ev, ty)] w) = api_calls w @
     [NotifyComponentUpdate, SendInspectorState INSPECTOR_ID,
      AddTimelineEvent MUTATIONS_LAYER_ID
        \<lparr>title = FormatMutationType ty, subtitle = mutation_subtitle ty ev,
         groupId = activeAction w, logType = None, data = MutationData ev (events_truthy ev)\<rparr>]"
  by (simp add: notify_subscribers_def subscribe_callback_def call_api_def Let_def)

lemma map_get_None_iff: "map_get m k = None \<longleftrightarrow> \<not> map_has m k"
  by (simp add: map_get_def map_has_def map_of_eq_None_iff)

text \<open>A request for another application or another inspector passes through the edit
  handler untouched.\<close>

lemma editInspectorState_not_addressed:
  "edit_app p \<noteq> a \<or> edit_inspectorId p \<noteq> INSPECTOR_ID \<Longrightarrow>
   editInspectorState_handler a p w = (Completed p, w)"
  by (auto simp: editInspectorState_handler_def)

text \<open>When the setter throws, the exception leaves the handler and the timeline stays
  paused: the write has been made in the paused world and nothing after it runs.\<close>

lemma editInspectorState_setter_throws:
  "edit_app p = a \<Longrightarrow> edit_inspectorId p = INSPECTOR_ID \<Longrightarrow>
   map_get (registeredStores w) (edit_nodeId p) = Some r \<Longrightarrow>
   edit_path p = ''state'' # rest \<Longrightarrow>
   snd (snd (edit_set p (objects w r) (''$state'' # rest) (edit_value p))) = Some e \<Longrightarrow>
   fst (editInspectorState_handler a p w) = Thrown e
   \<and> \<not> isTimelineActive (snd (editInspectorState_handler a p w))"
  by (simp add: editInspectorState_handler_def Let_def split_beta notify_subscribers_paused)




text \<open>
  C4 (an inspector edit outside \<open>state\<close> is rejected with a warning).  The rejection is
  there, the warning is not: \<open>toastMessage\<close> is called without a type.  At the request
  \<open>options_edit\<close> on the registered store \<open>cart\<close>, with no toast function in the page, the
  one message shown has no severity and goes to \<open>console.log\<close>.
\<close>

theorem editInspectorState_rejection_is_no_warning:
  "map msg_type (messages (snd (editInspectorState_handler 0 options_edit registered_world))) =
     [None]
   \<and> map msg_channel (messages (snd (editInspectorState_handler 0 options_edit registered_world))) =
       [ConsoleLog]"
  by (simp add: editInspectorState_handler_def options_edit_def registered_world_def
      addDevtools_def initial_world_def cart_def map_has_def map_get_def Let_def
      install_handlers_def call_api_def INSPECTOR_ID_def toastMessage_def)

text \<open>
  C4 as amended.  For a request on a registered store (addressed to the application and
  inspector of the bridge, its node id registered) whose path is empty or starts with
  something other than \<open>state\<close>: the handler returns, the payload is as it came and the
  world changes by one message only, the invalid-path text, passed on without a
  severity (to the toast function when there is one, to \<open>console.log\<close> otherwise).  So
  the setter is not called and no store object changes.
\<close>

theorem editInspectorState_rejects_other_paths:
  "edit_app p = a \<Longrightarrow> edit_inspectorId p = INSPECTOR_ID \<Longrightarrow>
   map_has (registeredStores w) (edit_nodeId p) \<Longrightarrow>
   (case edit_path p of [] \<Rightarrow> True | seg # _ \<Rightarrow> seg \<noteq> ''state'') \<Longrightarrow>
   editInspectorState_handler a p w =
     (Completed p,
      w\<lparr>messages := messages w @
            [\<lparr>msg_channel = (if toast_host w then DevtoolsToast else ConsoleLog),
              msg_text = pineapple @ '' '' @ invalid_path_message (edit_nodeId p) (edit_path p),
              msg_type = None\<rparr>]\<rparr>)"
proof -
  assume a: "edit_app p = a" "edit_inspectorId p = INSPECTOR_ID"
    and h: "map_has (registeredStores w) (edit_nodeId p)"
    and bad: "case edit_path p of [] \<Rightarrow> True | seg # _ \<Rightarrow> seg \<noteq> ''state''"
  from h obtain r where r: "map_get (registeredStores w) (edit_nodeId p) = Some r"
    using map_get_None_iff [of "registeredStores w" "edit_nodeId p"]
    by (cases "map_get (registeredStores w) (edit_nodeId p)") auto
  show ?thesis
    using a r bad by (simp add: editInspectorState_handler_def toastMessage_def Let_def)
qed

theorem editInspectorState_rejects_other_paths_witness:
  "set_calls (snd (editInspectorState_handler 0 options_edit registered_world)) = []
   \<and> objects (snd (editInspectorState_handler 0 options_edit registered_world)) 0 = cart
   \<and> length (messages (snd (editInspectorState_handler 0 options_edit registered_world))) = 1"
proof -
  have g: "edit_app options_edit = 0" "edit_inspectorId options_edit = INSPECTOR_ID"
    by (simp_all add: options_edit_def INSPECTOR_ID_def)
  have h: "map_has (registeredStores registered_world) (edit_nodeId options_edit)"
    by (simp add: registered_world_def registeredStores_addDevtools initial_world_def
        map_has_def cart_def options_edit_def)
  have b: "case edit_path options_edit of [] \<Rightarrow> True | seg # _ \<Rightarrow> seg \<noteq> ''state''"
    by (simp add: options_edit_def)
  have s: "set_calls registered_world = []" "messages registered_world = []"
      "objects registered_world 0 = cart"
    by (simp_all add: registered_world_def addDevtools_def initial_world_def
        Let_def install_handlers_def call_api_def)
  show ?thesis
    using editInspectorState_rejects_other_paths [OF g h b] s by simp
qed

section \<open>Reading from the inspector\<close>

lemma not_found_contains: "contains_text (pineapple @ '' '' @ not_found_message n) ''not found''"
  unfolding contains_text_def not_found_message_def
  by (rule exI [of _ "pineapple @ '' '' @ ''store '' @ dquote @ n @ dquote @ '' ''"],
      rule exI [of _ "[]"]) simp

text \<open>
  C5 (a state request for an unregistered node id reports a not-found error).  Not for
  every request: the handler answers only requests addressed to its application and to
  the inspector \<open>pinia\<close>.  The request \<open>foreign_state_request\<close> names the inspector \<open>router\<close>
  and a node id that is not registered, and no message is shown.
\<close>

theorem getInspectorState_ignores_other_inspectors:
  "messages (snd (getInspectorState_handler 0 foreign_state_request registered_world)) = []
   \<and> \<not> map_has (registeredStores registered_world) (state_nodeId foreign_state_request)"
  by (simp add: getInspectorState_handler_def foreign_state_request_def registered_world_def
      addDevtools_def initial_world_def cart_def map_has_def Let_def
      install_handlers_def call_api_def INSPECTOR_ID_def)

text \<open>
  C5 as amended.  For a state request addressed to the application and inspector of the
  bridge: when the node id is not registered, one message with the text
  \<open>store "<id>" not found\<close> is shown with severity \<open>error\<close> and the payload comes back
  untouched; when it is registered, the payload's state is set from the registered
  store and nothing else changes.  A request for another application or inspector comes
  back untouched and changes nothing.  In every case the handler returns.
\<close>

theorem getInspectorState_addressed:
  "(state_app p = a \<and> state_inspectorId p = INSPECTOR_ID \<longrightarrow>
      (\<not> map_has (registeredStores w) (state_nodeId p) \<longrightarrow>
         getInspectorState_handler a p w =
           (p, w\<lparr>messages := messages w @
                  [\<lparr>msg_channel = (if toast_host w then DevtoolsToast else ConsoleError),
                    msg_text = pineapple @ '' '' @ not_found_message (state_nodeId p),
                    msg_type = Some Error\<rparr>]\<rparr>)
         \<and> contains_text (pineapple @ '' '' @ not_found_message (state_nodeId p)) ''not found'')
      \<and> (map_has (registeredStores w) (state_nodeId p) \<longrightarrow>
         (\<exists>r. map_get (registeredStores w) (state_nodeId p) = Some r
            \<and> getInspectorState_handler a p w =
                (p\<lparr>payload_state := Some (FormatStoreForInspectorState (objects w r))\<rparr>, w))))
   \<and> (state_app p \<noteq> a \<or> state_inspectorId p \<noteq> INSPECTOR_ID \<longrightarrow>
        getInspectorState_handler a p w = (p, w))"
proof -
  have addressed: "state_app p = a \<and> state_inspectorId p = INSPECTOR_ID \<longrightarrow>
      (\<not> map_has (registeredStores w) (state_nodeId p) \<longrightarrow>
         getInspectorState_handler a p w =
           (p, w\<lparr>messages := messages w @
                  [\<lparr>msg_channel = (if toast_host w then DevtoolsToast else ConsoleError),
                    msg_text = pineapple @ '' '' @ not_found_message (state_nodeId p),
                    msg_type = Some Error\<rparr>]\<rparr>)
         \<and> contains_text (pineapple @ '' '' @ not_found_message (state_nodeId p)) ''not found'')
      \<and> (map_has (registeredStores w) (state_nodeId p) \<longrightarrow>
         (\<exists>r. map_get (registeredStores w) (state_nodeId p) = Some r
            \<and> getInspectorState_handler a p w =
                (p\<lparr>payload_state := Some (FormatStoreForInspectorState (objects w r))\<rparr>, w)))"
  proof
    assume g: "state_app p = a \<and> state_inspectorId p = INSPECTOR_ID"
    show "(\<not> map_has (registeredStores w) (state_nodeId p) \<longrightarrow>
         getInspectorState_handler a p w =
           (p, w\<lparr>messages := messages w @
                  [\<lparr>msg_channel = (if toast_host w then DevtoolsToast else ConsoleError),
                    msg_text = pineapple @ '' '' @ not_found_message (state_nodeId p),
                    msg_type = Some Error\<rparr>]\<rparr>)
         \<and> contains_text (pineapple @ '' '' @ not_found_message (state_nodeId p)) ''not found'')
      \<and> (map_has (registeredStores w) (state_nodeId p) \<longrightarrow>
         (\<exists>r. map_get (registeredStores w) (state_nodeId p) = Some r
            \<and> getInspectorState_handler a p w =
                (p\<lparr>payload_state := Some (FormatStoreForInspectorState (objects w r))\<rparr>, w)))"
    proof (cases "map_get (registeredStores w) (state_nodeId p)")
      case None
      then have "\<not> map_has (registeredStores w) (state_nodeId p)"
        by (simp add: map_get_None_iff)
      moreover from None g have "getInspectorState_handler a p w =
          (p, w\<lparr>messages := messages w @
                 [\<lparr>msg_channel = (if toast_host w then DevtoolsToast else ConsoleError),
                   msg_text = pineapple @ '' '' @ not_found_message (state_nodeId p),
                   msg_type = Some Error\<rparr>]\<rparr>)"
        by (simp add: getInspectorState_handler_def toastMessage_def Let_def)
      ultimately show ?thesis using not_found_contains [of "state_nodeId p"] by blast
    next
      case (Some r)
      then have "map_has (registeredStores w) (state_nodeId p)"
        using map_get_None_iff [of "registeredStores w" "state_nodeId p"] by simp
      with Some g show ?thesis
        by (simp add: getInspectorState_handler_def)
    qed
  qed
  have foreign: "state_app p \<noteq> a \<or> state_inspectorId p \<noteq> INSPECTOR_ID \<longrightarrow>
      getInspectorState_handler a p w = (p, w)"
    by (auto simp: getInspectorState_handler_def)
  from addressed foreign show ?thesis by (rule conjI)
qed

theorem getInspectorState_addressed_witness:
  "messages (snd (getInspectorState_handler 0 missing_state_request registered_world)) =
     [\<lparr>msg_channel = ConsoleError,
       msg_text = pineapple @ '' store '' @ dquote @ ''missing'' @ dquote @ '' not found'',
       msg_type = Some Error\<rparr>]
   \<and> getInspectorState_handler 0 foreign_state_request registered_world =
       (foreign_state_request, registered_world)"
proof -
  have g: "state_app missing_state_request = 0"
      "state_inspectorId missing_state_request = INSPECTOR_ID"
    by (simp_all add: missing_state_request_def INSPECTOR_ID_def)
  have n: "\<not> map_has (registeredStores registered_world) (state_nodeId missing_state_request)"
    by (simp add: registered_world_def registeredStores_addDevtools initial_world_def
        map_has_def cart_def missing_state_request_def)
  have m: "messages registered_world = []" "toast_host registered_world = False"
    by (simp_all add: registered_world_def addDevtools_def initial_world_def Let_def
        install_handlers_def call_api_def)
  have f: "state_inspectorId foreign_state_request \<noteq> INSPECTOR_ID"
    by (simp add: foreign_state_request_def INSPECTOR_ID_def)
  show ?thesis
    using getInspectorState_addressed [of missing_state_request 0 registered_world]
      getInspectorState_addressed [of foreign_state_request 0 registered_world] g n m f
    by (simp add: not_found_message_def missing_state_request_def)
qed

section \<open>Filtering the inspector tree\<close>

lemma startsWith_prefix: "startsWith s t \<longleftrightarrow> (\<exists>post. s = t @ post)"
  by (induction s t rule: startsWith.induct) auto

text \<open>\<open>includes\<close> finds its argument exactly when the argument occurs in the string.\<close>

lemma includes_str_occurs: "includes_str s t \<longleftrightarrow> contains_text s t"
proof (induction s)
  case Nil
  show ?case by (auto simp: contains_text_def)
next
  case (Cons a s)
  have "contains_text (a # s) t \<longleftrightarrow> (\<exists>post. a # s = t @ post) \<or> contains_text s t"
  proof
    assume "contains_text (a # s) t"
    then obtain pre post where e: "a # s = pre @ t @ post" by (auto simp: contains_text_def)
    show "(\<exists>post. a # s = t @ post) \<or> contains_text s t"
    proof (cases pre)
      case Nil
      with e show ?thesis by auto
    next
      case (Cons b pre')
      with e have "s = pre' @ t @ post" by simp
      then show ?thesis by (auto simp: contains_text_def)
    qed
  next
    assume "(\<exists>post. a # s = t @ post) \<or> contains_text s t"
    then show "contains_text (a # s) t"
    proof
      assume "\<exists>post. a # s = t @ post"
      then obtain post where "a # s = [] @ t @ post" by auto
      then show ?thesis unfolding contains_text_def by blast
    next
      assume "contains_text s t"
      then obtain pre post where "s = pre @ t @ post" by (auto simp: contains_text_def)
      then have "a # s = (a # pre) @ t @ post" by simp
      then show ?thesis unfolding contains_text_def by blast
    qed
  qed
  then show ?case by (simp add: startsWith_prefix Cons.IH)
qed

text \<open>
  C8 (a tree request with a filter returns exactly the registered stores whose id
  contains the filter, case-insensitively).  Not for every request: the handler answers
  only requests addressed to its application and to the inspector \<open>pinia\<close>.  The request
  \<open>foreign_tree_request\<close> names the inspector \<open>router\<close> and carries the filter \<open>car\<close>; its
  root nodes stay empty although the one registered store, \<open>cart\<close>, contains \<open>car\<close>.
\<close>

theorem getInspectorTree_ignores_other_inspectors:
  "rootNodes (getInspectorTree_handler store_id ascii_lower 0 foreign_tree_request registered_world) = []
   \<and> registered_values registered_world = [cart]
   \<and> store_id cart = ''cart''
   \<and> tree_filter foreign_tree_request = Some ''car''
   \<and> includes_str ''cart'' ''car''"
  by (simp add: getInspectorTree_handler_def foreign_tree_request_def registered_world_def
      addDevtools_def initial_world_def cart_def map_has_def Let_def registered_values_def
      install_handlers_def call_api_def INSPECTOR_ID_def)

text \<open>
  C8 as amended.  For a tree request addressed to the application and inspector of the
  bridge: with a non-empty filter the root nodes become, in registration order, the
  nodes of exactly those registered stores in whose id, lowercased by \<open>toLowerCase\<close>, the
  filter, lowercased by \<open>toLowerCase\<close>, occurs; with no filter (absent or empty) they
  become the nodes of all registered stores.  Each node carries its store's id and the
  label derived from the store, and nothing else in the payload changes.  A request for
  another application or inspector comes back untouched.  This holds whatever function
  \<open>toLowerCase\<close> is.
\<close>

theorem getInspectorTree_addressed:
  "(tree_app p = a \<and> tree_inspectorId p = INSPECTOR_ID \<longrightarrow>
      (\<forall>f. tree_filter p = Some f \<and> f \<noteq> [] \<longrightarrow>
         getInspectorTree_handler label toLowerCase a p w =
           p\<lparr>rootNodes := map (\<lambda>s. \<lparr>node_id = store_id s, node_label = label s\<rparr>)
              (filter (\<lambda>s. contains_text (toLowerCase (store_id s)) (toLowerCase f))
                 (registered_values w))\<rparr>)
      \<and> (tree_filter p = None \<or> tree_filter p = Some [] \<longrightarrow>
         getInspectorTree_handler label toLowerCase a p w =
           p\<lparr>rootNodes := map (\<lambda>s. \<lparr>node_id = store_id s, node_label = label s\<rparr>)
              (registered_values w)\<rparr>))
   \<and> (tree_app p \<noteq> a \<or> tree_inspectorId p \<noteq> INSPECTOR_ID \<longrightarrow>
        getInspectorTree_handler label toLowerCase a p w = p)"
  by (auto simp: getInspectorTree_handler_def Let_def includes_str_occurs
      formatStoreForInspectorTree_def)

theorem getInspectorTree_addressed_witness:
  "rootNodes (getInspectorTree_handler store_id ascii_lower 0 car_tree_request registered_world) =
     [\<lparr>node_id = ''cart'', node_label = ''cart''\<rparr>]
   \<and> getInspectorTree_handler store_id ascii_lower 0 foreign_tree_request registered_world =
       foreign_tree_request"
proof -
  have g: "tree_app car_tree_request = 0" "tree_inspectorId car_tree_request = INSPECTOR_ID"
      "tree_filter car_tree_request = Some ''CAR''"
    by (simp_all add: car_tree_request_def INSPECTOR_ID_def)
  have v: "registered_values registered_world = [cart]"
    by (simp add: registered_world_def registered_values_def registeredStores_addDevtools
        initial_world_def map_has_def)
  have l: "ascii_lower ''cart'' = ''cart''" "ascii_lower ''CAR'' = ''car''"
    by code_simp+
  have c: "contains_text ''cart'' ''car''"
    unfolding contains_text_def by (rule exI [of _ "[]"], rule exI [of _ "''t''"]) simp
  have f: "tree_inspectorId foreign_tree_request \<noteq> INSPECTOR_ID"
    by (simp add: foreign_tree_request_def INSPECTOR_ID_def)
  show ?thesis
    using getInspectorTree_addressed [of car_tree_request 0 store_id ascii_lower registered_world]
      getInspectorTree_addressed [of foreign_tree_request 0 store_id ascii_lower registered_world]
      g v l c f
    by (simp add: cart_def)
qed

section \<open>Objects built by a reduce\<close>

lemma map_of_map_set: "map_of (map_set m k v) = (map_of m)(k \<mapsto> v)"
proof (induction m)
  case Nil
  show ?case by simp
next
  case (Cons e m)
  obtain k' v' where e: "e = (k', v')" by (cases e)
  show ?case by (cases "k' = k") (auto simp: e Cons.IH)
qed

lemma map_get_map_set: "map_get (map_set m k v) k' = (if k' = k then Some v else map_get m k')"
  by (simp add: map_get_def map_of_map_set)



lemma distinct_fold_map_set:
  "distinct (map fst acc0) \<Longrightarrow>
   distinct (map fst (fold (\<lambda>x acc. map_set acc (kf x) (vf x)) xs acc0))"
  by (induction xs arbitrary: acc0) (auto simp: distinct_map_set)


section \<open>The wrappers installed by the plugin\<close>



section \<open>Attribution of mutations to actions\<close>

lemma store_read_activeAction [simp]:
  "store_read r key (w\<lparr>activeAction := x\<rparr>) = store_read r key w"
  by (simp add: store_read_def)

lemma subscribe_callback_active:
  "isTimelineActive w \<Longrightarrow>
   subscribe_callback ev ty w =
     w\<lparr>activeAction := None,
       api_calls := api_calls w @
         [NotifyComponentUpdate, SendInspectorState INSPECTOR_ID, mutation_event ev ty (activeAction w)]\<rparr>"
  by (simp add: subscribe_callback_def call_api_def Let_def mutation_event_def)

text \<open>
  C6 (a mutation event takes its group id from the active-action slot, which is cleared
  on reading and set by every access through the tracking proxy).  With the timeline
  active, the mutation callback emits one timeline event whose group id is the slot's
  value on entry and leaves the slot empty; a second callback right after it emits an
  event without group id; after a read through a proxy the slot holds the proxy's id
  and the next event carries it.  The \<open>get\<close> trap stores the id and then reads, the \<open>set\<close>
  trap stores the id and then writes, and the id of a proxy is the \<open>runningActionId\<close> at
  the time its wrapper was called.
\<close>

theorem mutation_group_id_single_use:
  "isTimelineActive w \<Longrightarrow>
   (let w1 = subscribe_callback ev ty w;
        w2 = subscribe_callback ev' ty' w1;
        (x, w3) = proxy_get (TrackedStore r actionId) key w1;
        w4 = subscribe_callback ev' ty' w3
    in api_calls w1 = api_calls w @
         [NotifyComponentUpdate, SendInspectorState INSPECTOR_ID,
          mutation_event ev ty (activeAction w)]
       \<and> activeAction w1 = None
       \<and> api_calls w2 = api_calls w1 @
         [NotifyComponentUpdate, SendInspectorState INSPECTOR_ID, mutation_event ev' ty' None]
       \<and> activeAction w3 = Some actionId
       \<and> api_calls w4 = api_calls w1 @
         [NotifyComponentUpdate, SendInspectorState INSPECTOR_ID,
          mutation_event ev' ty' (Some actionId)])
   \<and> proxy_get (TrackedStore r actionId) key w =
       (store_read r key w, w\<lparr>activeAction := Some actionId\<rparr>)
   \<and> proxy_set (TrackedStore r actionId) key v w =
       (True, store_write r key v (w\<lparr>activeAction := Some actionId\<rparr>))
   \<and> (\<forall>f. map_get actions name = Some (Some f) \<longrightarrow>
        call_wrapped host_apply (WrappedAction pn r actions name) args w =
          Inr (host_apply f (TrackedStore r (runningActionId w)) args (setActivePinia pn w)))"
  by (simp add: subscribe_callback_active proxy_get_def proxy_set_def Let_def
      call_wrapped_def setActivePinia_def)

theorem mutation_group_id_single_use_witness:
  "api_calls (subscribe_callback NoEvents patchObject (subscribed_world\<lparr>activeAction := Some 7\<rparr>)) =
     api_calls subscribed_world @
       [NotifyComponentUpdate, SendInspectorState INSPECTOR_ID,
        mutation_event NoEvents patchObject (Some 7)]
   \<and> activeAction (subscribe_callback NoEvents patchObject (subscribed_world\<lparr>activeAction := Some 7\<rparr>)) = None"
proof -
  have a: "isTimelineActive (subscribed_world\<lparr>activeAction := Some 7\<rparr>)"
    by (simp add: subscribed_world_def registered_world_def addDevtools_def initial_world_def
        Let_def install_handlers_def call_api_def)
  show ?thesis
    using mutation_group_id_single_use [OF a, where ev = NoEvents and ty = patchObject and ev' = NoEvents and ty' = direct
        and r = 0 and actionId = 7 and key = "''items''" and v = "Num 1" and actions = "[]"
        and name = "''add''" and host_apply = example_apply and pn = 0 and args = "[]"]
    by (simp add: Let_def split_beta)
qed

text \<open>End to end, on a store that has one mutation callback: a write through the proxy
  is attributed to the proxy's action, a plain write that follows it is not.\<close>

lemma tracked_write_is_attributed:
  "isTimelineActive w \<Longrightarrow> subscribe_callbacks (objects w r) = 1 \<Longrightarrow>
   (let w1 = snd (proxy_set (TrackedStore r actionId) key v w);
        w2 = store_write r key v' w1
    in api_calls w1 = api_calls w @
         [NotifyComponentUpdate, SendInspectorState INSPECTOR_ID,
          mutation_event
            (OneEvent \<lparr>event_type = (if map_has (store_state (objects w r)) key then ''set'' else ''add''),
                       event_key = key\<rparr>) direct (Some actionId)]
       \<and> activeAction w1 = None
       \<and> api_calls w2 = api_calls w1 @
         [NotifyComponentUpdate, SendInspectorState INSPECTOR_ID,
          mutation_event (OneEvent \<lparr>event_type = ''set'', event_key = key\<rparr>) direct None])"
  by (simp add: proxy_set_def store_write_def notify_subscribers_def Let_def
      subscribe_callback_active map_has_def keys_map_set)

section \<open>The per-instance store cache\<close>

lemma map_set_fresh: "k \<notin> fst ` set m \<Longrightarrow> map_set m k v = m @ [(k, v)]"
  by (induction m) auto

lemma map_get_None_fresh: "map_get m k = None \<Longrightarrow> k \<notin> fst ` set m"
  by (simp add: map_get_def map_of_eq_None_iff)

text \<open>For an id that names nothing on \<open>Object.prototype\<close>, \<open>getCachedStore\<close> is the
  per-instance store cache of the specification.\<close>

lemma getCachedStore_instance_store:
  assumes "def_id d \<notin> set (inherited_keys w)"
  shows "getCachedStore v (Definition d) w =
     Inr (Store (fst (instance_store v d w)), snd (instance_store v d w))"
proof (cases "pStores (instances w v)")
  case None
  then show ?thesis using assms
    by (simp add: getCachedStore_def instance_store_def cached_def instance_cache_def
        object_get_def map_get_def Let_def split_beta)
next
  case (Some c)
  show ?thesis
  proof (cases "map_get c (def_id d)")
    case None
    then have "map_set c (def_id d) (fst (def_use d (inst_pinia (instances w v)) (objects w))) =
        c @ [(def_id d, fst (def_use d (inst_pinia (instances w v)) (objects w)))]"
      by (intro map_set_fresh map_get_None_fresh)
    with None Some assms show ?thesis
      by (simp add: getCachedStore_def instance_store_def cached_def instance_cache_def
          object_get_def Let_def split_beta)
  next
    case (Some r)
    with \<open>pStores (instances w v) = Some c\<close> show ?thesis
      by (simp add: getCachedStore_def instance_store_def cached_def object_get_def Let_def)
  qed
qed

lemma instance_store_cached:
  "cached (snd (instance_store v d w)) v (def_id d) = Some (fst (instance_store v d w))"
  by (auto simp: instance_store_def cached_def instance_cache_def Let_def map_get_def
      map_add_def split: option.splits)

lemma instance_store_inherited [simp]:
  "inherited_keys (snd (instance_store v d w)) = inherited_keys w"
  by (simp add: instance_store_def Let_def split: option.splits)

lemma instance_store_hit:
  "cached w v (def_id d) = Some r \<Longrightarrow> instance_store v d w = (r, w)"
  by (simp add: instance_store_def)

lemma subscribe_callback_keeps [simp]:
  "objects (subscribe_callback ev ty w) = objects w"
  "instances (subscribe_callback ev ty w) = instances w"
  "inherited_keys (subscribe_callback ev ty w) = inherited_keys w"
  by (simp_all add: subscribe_callback_def call_api_def Let_def)

lemma subscribe_callbacks_keep [simp]:
  "objects ((subscribe_callback ev ty ^^ n) w) = objects w"
  "instances ((subscribe_callback ev ty ^^ n) w) = instances w"
  "inherited_keys ((subscribe_callback ev ty ^^ n) w) = inherited_keys w"
  by (induction n) simp_all

lemma notify_subscribers_keeps [simp]:
  "objects (notify_subscribers r ms w) = objects w"
  "instances (notify_subscribers r ms w) = instances w"
  "inherited_keys (notify_subscribers r ms w) = inherited_keys w"
  unfolding notify_subscribers_def
  by (induction ms arbitrary: w) (auto simp: split_beta)

lemma store_write_objects:
  "objects (store_write r key v w) =
     (objects w)(r := (objects w r)\<lparr>store_state := map_set (store_state (objects w r)) key v\<rparr>)"
  by (simp add: store_write_def Let_def)

lemma store_write_keeps [simp]:
  "instances (store_write r key v w) = instances w"
  "inherited_keys (store_write r key v w) = inherited_keys w"
  by (simp_all add: store_write_def Let_def)

lemma store_read_after_write: "store_read r key (store_write r key v w) = v"
  by (simp add: store_read_def store_write_objects map_get_map_set)

lemma cached_store_write [simp]: "cached (store_write r key x w) v sid = cached w v sid"
  by (simp add: cached_def)

lemma writable_round_trip:
  assumes "def_id (writable_store acc) \<notin> set (inherited_keys w)"
  shows "(let r = fst (instance_store this (writable_store acc) w);
              w0 = snd (instance_store this (writable_store acc) w);
              w1 = store_write r (writable_key acc) v w0
          in writable_set acc this v w = Inr (OnStore v, w1)
             \<and> cached w1 this (def_id (writable_store acc)) = Some r
             \<and> map_get (store_state (objects w1 r)) (writable_key acc) = Some v
             \<and> writable_get acc this w1 = Inr (OnStore v, w1))"
proof -
  let ?d = "writable_store acc"
  let ?r = "fst (instance_store this ?d w)"
  let ?w0 = "snd (instance_store this ?d w)"
  let ?w1 = "store_write ?r (writable_key acc) v ?w0"
  have s: "writable_set acc this v w = Inr (OnStore v, ?w1)"
    by (simp add: writable_set_def getCachedStore_instance_store [OF assms])
  have c: "cached ?w1 this (def_id ?d) = Some ?r"
    by (simp add: instance_store_cached)
  have i: "def_id ?d \<notin> set (inherited_keys ?w1)"
    using assms by simp
  have "writable_get acc this ?w1 = Inr (OnStore (store_read ?r (writable_key acc) ?w1), ?w1)"
    by (simp add: writable_get_def getCachedStore_instance_store [OF i]
        instance_store_hit [OF c])
  then have g: "writable_get acc this ?w1 = Inr (OnStore v, ?w1)"
    by (simp add: store_read_after_write)
  have st: "map_get (store_state (objects ?w1 ?r)) (writable_key acc) = Some v"
    by (simp add: store_write_objects map_get_map_set)
  show ?thesis unfolding Let_def using s c st g by blast
qed

lemma find_snoc:
  "find P (xs @ [x]) = (case find P xs of Some y \<Rightarrow> Some y | None \<Rightarrow> if P x then Some x else None)"
  by (induction xs) auto

lemma find_Some_key: "find P xs = Some x \<Longrightarrow> P x \<and> x \<in> set xs"
  by (induction xs) (auto split: if_splits)

lemma find_None_key: "find P xs = None \<longleftrightarrow> (\<forall>x \<in> set xs. \<not> P x)"
  by (induction xs) auto


text \<open>An object built by a reduce: under a key other than \<open>__proto__\<close> sits what the
  last element with that key has put there.\<close>

lemma fold_obj_assign:
  "fold (\<lambda>x obj. obj_assign obj (kf x) (vf x)) xs obj0 k =
     (if k = ''__proto__'' then obj0 k
      else case find (\<lambda>x. kf x = k) (rev xs) of
             Some x \<Rightarrow> Some (vf x)
           | None \<Rightarrow> obj0 k)"
proof (induction xs arbitrary: obj0)
  case Nil
  show ?case by simp
next
  case (Cons x xs)
  have "fold (\<lambda>x obj. obj_assign obj (kf x) (vf x)) (x # xs) obj0 k =
      fold (\<lambda>x obj. obj_assign obj (kf x) (vf x)) xs (obj_assign obj0 (kf x) (vf x)) k"
    by simp
  also have "\<dots> =
      (if k = ''__proto__'' then obj_assign obj0 (kf x) (vf x) k
       else case find (\<lambda>x. kf x = k) (rev xs) of
              Some y \<Rightarrow> Some (vf y)
            | None \<Rightarrow> obj_assign obj0 (kf x) (vf x) k)"
    by (rule Cons.IH)
  also have "\<dots> =
      (if k = ''__proto__'' then obj0 k
       else case find (\<lambda>x. kf x = k) (rev (x # xs)) of
              Some y \<Rightarrow> Some (vf y)
            | None \<Rightarrow> obj0 k)"
    by (simp add: obj_assign_def find_snoc split: option.splits)
  finally show ?case .
qed

lemma fold_obj_assign_by_key:
  "k \<in> set ks \<Longrightarrow> k \<noteq> ''__proto__'' \<Longrightarrow>
   fold (\<lambda>key obj. obj_assign obj key (vf key)) ks Map.empty k = Some (vf k)"
proof -
  assume k: "k \<in> set ks" and p: "k \<noteq> ''__proto__''"
  from k have "find (\<lambda>x. x = k) (rev ks) \<noteq> None" by (auto simp: find_None_key)
  then obtain x where x: "find (\<lambda>x. x = k) (rev ks) = Some x" by auto
  then have "x = k" using find_Some_key [of "\<lambda>x. x = k" "rev ks" x] by simp
  with x p show ?thesis
    using fold_obj_assign [of "\<lambda>x. x" vf ks Map.empty k] by simp
qed

lemma mapWritableState_entry:
  "k \<in> output_keys km \<Longrightarrow> k \<noteq> ''__proto__'' \<Longrightarrow>
   \<exists>acc. mapWritableState useStore km k = Some acc
      \<and> writable_store acc = useStore \<and> writable_key acc = state_key_for km k"
proof (cases km)
  case (KeyArray ks)
  assume "k \<in> output_keys km" "k \<noteq> ''__proto__''"
  with KeyArray show ?thesis
    by (simp add: mapWritableState_def output_keys_def state_key_for_def fold_obj_assign_by_key)
next
  case (KeyMapper m)
  assume "k \<in> output_keys km" "k \<noteq> ''__proto__''"
  with KeyMapper show ?thesis
    by (simp add: mapWritableState_def output_keys_def state_key_for_def fold_obj_assign_by_key)
qed

text \<open>
  C9 (set then get on a \<open>mapWritableState\<close> pair writes to and reads from the instance's
  cached store).  Not for every store definition.  The cache is a plain object, and
  \<open>useToStringStore\<close> has the id \<open>toString\<close>: the lookup \<open>cache[id]\<close> finds the function that
  every object inherits under that name, so \<open>set(5)\<close> on the pair for \<open>count\<close> calls no
  factory, leaves the cache of the instance empty and changes no store object; the
  property is written on the inherited function instead.
\<close>

theorem mapWritableState_diverted_by_inherited_key:
  "mapWritableState useToStringStore (KeyArray [''count'']) ''count'' =
     Some (WritableKey useToStringStore ''count'')
   \<and> isl (writable_set (WritableKey useToStringStore ''count'') 0 (Num 5) fresh_world) = False
   \<and> fst (projr (writable_set (WritableKey useToStringStore ''count'') 0 (Num 5) fresh_world)) =
       OnMember ''toString''
   \<and> pStores (instances (snd (projr
         (writable_set (WritableKey useToStringStore ''count'') 0 (Num 5) fresh_world))) 0) = Some []
   \<and> objects (snd (projr
         (writable_set (WritableKey useToStringStore ''count'') 0 (Num 5) fresh_world))) =
       objects fresh_world"
  by (simp add: mapWritableState_def obj_assign_def writable_set_def getCachedStore_def object_get_def
      useToStringStore_def fresh_world_def initial_world_def no_instances_def
      Object_prototype_keys_def map_get_def Let_def)

text \<open>
  C9 as amended.  For a store definition whose id names nothing that a plain object
  inherits from \<open>Object.prototype\<close>, and every output key of \<open>mapWritableState\<close> other than
  \<open>__proto__\<close>, component instance, value and world: the key has a get/set pair; its \<open>set\<close>
  takes the instance's cached store of the definition (the store the cache holds under
  the id, or on first use the one the definition returns for the instance's pinia,
  cached from then on), writes the value under the state key the output key stands for,
  and returns the value; afterwards that store is in the instance's cache and holds the
  value under that key; a \<open>get\<close> after it reads the key from the same store and returns
  the value, changing nothing.
\<close>

theorem mapWritableState_round_trip:
  "k \<in> output_keys km \<Longrightarrow> k \<noteq> ''__proto__'' \<Longrightarrow>
   def_id useStore \<notin> set (inherited_keys w) \<Longrightarrow>
   (\<exists>acc. mapWritableState useStore km k = Some acc
      \<and> writable_store acc = useStore
      \<and> writable_key acc = state_key_for km k
      \<and> (let sk = state_key_for km k;
              r = fst (instance_store this useStore w);
              w0 = snd (instance_store this useStore w);
              w1 = store_write r sk v w0
          in writable_set acc this v w = Inr (OnStore v, w1)
             \<and> cached w1 this (def_id useStore) = Some r
             \<and> map_get (store_state (objects w1 r)) sk = Some v
             \<and> writable_get acc this w1 = Inr (OnStore v, w1)))"
proof -
  assume k: "k \<in> output_keys km" "k \<noteq> ''__proto__''"
    and i: "def_id useStore \<notin> set (inherited_keys w)"
  from k obtain acc where a: "mapWritableState useStore km k = Some acc"
      "writable_store acc = useStore" "writable_key acc = state_key_for km k"
    using mapWritableState_entry by blast
  from i a(2) have "def_id (writable_store acc) \<notin> set (inherited_keys w)" by simp
  from writable_round_trip [OF this, of this v] a show ?thesis
    by (auto simp: Let_def)
qed

theorem mapWritableState_round_trip_witness:
  "(case mapWritableState useFooStore (KeyArray [''count'']) ''count'' of
      None \<Rightarrow> False
    | Some acc \<Rightarrow>
        (case writable_set acc 0 (Num 5) fresh_world of
           Inl e \<Rightarrow> False
         | Inr (x, w1) \<Rightarrow> x = OnStore (Num 5) \<and> writable_get acc 0 w1 = Inr (OnStore (Num 5), w1)
             \<and> cached w1 0 ''foo'' = Some 1 \<and> store_read 1 ''count'' w1 = Num 5))"
proof -
  have k: "''count'' \<in> output_keys (KeyArray [''count''])" "''count'' \<noteq> ''__proto__''"
    by (simp_all add: output_keys_def)
  have i: "def_id useFooStore \<notin> set (inherited_keys fresh_world)"
    by (simp add: useFooStore_def fresh_world_def initial_world_def Object_prototype_keys_def)
  have r: "fst (instance_store 0 useFooStore fresh_world) = 1"
    by (simp add: instance_store_def cached_def fresh_world_def initial_world_def no_instances_def
        useFooStore_def use_at_def Let_def)
  show ?thesis
    using mapWritableState_round_trip [OF k i, of 0 "Num 5"] r
    by (auto simp: Let_def useFooStore_def state_key_for_def store_read_def)
qed

section \<open>\<open>mapStores\<close>\<close>

lemma is_array_definitions [simp]: "is_array (map Definition fs) = None"
  by (cases fs) simp_all







end
